theory Spec2Isabelle
  imports Main
begin

section \<open>JavaScript values used by the parser\<close>

text \<open>
  A JavaScript string is modelled as a \<^typ>\<open>string\<close>, one \<^typ>\<open>char\<close> per code unit; the model
  covers the code units below 256. Exceptions are values: a \<open>ReferenceError\<close> names the
  identifier that could not be resolved, a \<open>TypeError\<close> names the expression whose value was
  \<open>null\<close> or \<open>undefined\<close> when a property of it was read, and \<open>Thrown n\<close> is the statement
  \<open>throw n\<close>.
\<close>

datatype exn = ReferenceError string | TypeError string | Thrown int

abbreviation TAB :: char where "TAB \<equiv> CHR 0x09"
abbreviation LF :: char where "LF \<equiv> CHR 0x0A"
abbreviation CR :: char where "CR \<equiv> CHR 0x0D"
abbreviation BSL :: char where "BSL \<equiv> CHR 0x5C"

definition in_range :: "char \<Rightarrow> char \<Rightarrow> char \<Rightarrow> bool" where
  "in_range lo hi c = ((of_char lo :: nat) \<le> of_char c \<and> (of_char c :: nat) \<le> of_char hi)"

text \<open>The character classes \<open>\d\<close>, \<open>\w\<close>, \<open>\s\<close>, \<open>\S\<close> and \<open>.\<close> of a pattern without flags.\<close>

definition cls_d :: "char \<Rightarrow> bool" where
  "cls_d c = in_range CHR ''0'' CHR ''9'' c"

definition cls_w :: "char \<Rightarrow> bool" where
  "cls_w c = (in_range CHR ''A'' CHR ''Z'' c \<or> in_range CHR ''a'' CHR ''z'' c
              \<or> in_range CHR ''0'' CHR ''9'' c \<or> c = CHR ''_'')"

definition cls_s :: "char \<Rightarrow> bool" where
  "cls_s c = (c \<in> set [TAB, LF, CHR 0x0B, CHR 0x0C, CR, CHR '' '', CHR 0xA0])"

definition cls_S :: "char \<Rightarrow> bool" where
  "cls_S c = (\<not> cls_s c)"

definition cls_dot :: "char \<Rightarrow> bool" where
  "cls_dot c = (c \<noteq> LF \<and> c \<noteq> CR)"

section \<open>Regular expressions with backtracking\<close>

text \<open>
  The patterns of the source are kept as data and run by a backtracking matcher in
  continuation-passing style, the way the language defines pattern matching: alternatives
  are tried left to right, \<open>*\<close> takes as many iterations as it can before it gives one back,
  \<open>*?\<close> as few as it can, and an iteration that consumes nothing is refused.
  \<open>r+\<close> is \<open>Seq r (Star r)\<close>, \<open>r?\<close> is \<open>Alt r Eps\<close>, \<open>r{n}\<close> is \<open>n\<close> copies of \<open>r\<close>
  in sequence. No pattern of the source has a capture group inside a quantifier.
\<close>

datatype re =
    Chr "char \<Rightarrow> bool"
  | Bol
  | Eol
  | Eps
  | Seq re re
  | Alt re re
  | Star re
  | Lazy re
  | Grp nat re

type_synonym captures = "nat \<Rightarrow> string option"

text \<open>A matcher state: the number of code units before the current position, the rest of
  the input, and the captures so far.\<close>

type_synonym mstate = "nat \<times> string \<times> captures"

type_synonym matcher = "mstate \<Rightarrow> (mstate \<Rightarrow> mstate option) \<Rightarrow> mstate option"

definition no_captures :: captures where
  "no_captures = (\<lambda>_. None)"

definition orelse :: "'a option \<Rightarrow> 'a option \<Rightarrow> 'a option" where
  "orelse a b = (case a of Some r \<Rightarrow> Some r | None \<Rightarrow> b)"

definition progress :: "mstate \<Rightarrow> mstate \<Rightarrow> bool" where
  "progress st st' = (length (fst (snd st')) < length (fst (snd st)))"

primrec rep_greedy :: "nat \<Rightarrow> matcher \<Rightarrow> matcher" where
  "rep_greedy 0 body = (\<lambda>st k. k st)"
| "rep_greedy (Suc n) body = (\<lambda>st k.
     orelse (body st (\<lambda>st'. if progress st st' then rep_greedy n body st' k else None)) (k st))"

primrec rep_lazy :: "nat \<Rightarrow> matcher \<Rightarrow> matcher" where
  "rep_lazy 0 body = (\<lambda>st k. k st)"
| "rep_lazy (Suc n) body = (\<lambda>st k.
     orelse (k st) (body st (\<lambda>st'. if progress st st' then rep_lazy n body st' k else None)))"

text \<open>Every iteration of a quantifier consumes at least one code unit, so the length of the
  rest of the input bounds the number of iterations.\<close>

primrec m :: "re \<Rightarrow> matcher" where
  "m (Chr P) = (\<lambda>st k. case st of
       (p, [], c) \<Rightarrow> None
     | (p, x # xs, c) \<Rightarrow> if P x then k (Suc p, xs, c) else None)"
| "m Bol = (\<lambda>st k. if fst st = 0 then k st else None)"
| "m Eol = (\<lambda>st k. if fst (snd st) = [] then k st else None)"
| "m Eps = (\<lambda>st k. k st)"
| "m (Seq a b) = (\<lambda>st k. m a st (\<lambda>st'. m b st' k))"
| "m (Alt a b) = (\<lambda>st k. orelse (m a st k) (m b st k))"
| "m (Star a) = (\<lambda>st k. rep_greedy (length (fst (snd st))) (m a) st k)"
| "m (Lazy a) = (\<lambda>st k. rep_lazy (length (fst (snd st))) (m a) st k)"
| "m (Grp n a) = (\<lambda>st k. m a st (\<lambda>st'. case st' of (p', s', c') \<Rightarrow>
       k (p', s', c'(n := Some (take (p' - fst st) (fst (snd st)))))))"

text \<open>\<open>RegExp.prototype.exec\<close> for a pattern without the \<open>g\<close> and \<open>y\<close> flags: the first start
  position, from 0, at which the pattern matches. Capture 0 is the matched text.\<close>

fun re_search :: "re \<Rightarrow> nat \<Rightarrow> string \<Rightarrow> captures option" where
  "re_search r p [] =
     (case m r (p, [], no_captures) Some of
        Some st \<Rightarrow> Some ((snd (snd st))(0 := Some []))
      | None \<Rightarrow> None)"
| "re_search r p (x # xs) =
     (case m r (p, x # xs, no_captures) Some of
        Some st \<Rightarrow> Some ((snd (snd st))(0 := Some (take (fst st - p) (x # xs))))
      | None \<Rightarrow> re_search r (Suc p) xs)"

definition re_exec :: "re \<Rightarrow> string \<Rightarrow> captures option" where
  "re_exec r s = re_search r 0 s"

text \<open>\<open>str.match(re)\<close> without the \<open>g\<close> flag is \<open>re.exec(str)\<close>; \<open>re.test(str)\<close> says whether
  it is not \<open>null\<close>.\<close>

definition re_test :: "re \<Rightarrow> string \<Rightarrow> bool" where
  "re_test r s = (re_exec r s \<noteq> None)"

text \<open>Derived forms: a sequence of patterns, \<open>r+\<close> and \<open>r?\<close>.\<close>

definition seqs :: "re list \<Rightarrow> re" where
  "seqs rs = foldr Seq rs Eps"

definition plus :: "re \<Rightarrow> re" where
  "plus r = Seq r (Star r)"

definition opt :: "re \<Rightarrow> re" where
  "opt r = Alt r Eps"

definition lit :: "char \<Rightarrow> re" where
  "lit a = Chr (\<lambda>c. c = a)"

section \<open>String methods\<close>

text \<open>
  \<open>str.split(re)\<close>: \<open>q\<close> scans the string, \<open>acc\<close> is the text since the end \<open>p\<close> of the last
  separator, so that \<open>p = q\<close> when \<open>acc\<close> is empty. A match of the separator at \<open>q\<close> that
  ends at \<open>p\<close> is skipped; any other match closes the current piece. None of the separators of the source has a
  capture group, so only pieces are returned.
\<close>

function js_split_loop :: "re \<Rightarrow> nat \<Rightarrow> string \<Rightarrow> string \<Rightarrow> string list" where
  "js_split_loop r q acc [] = [acc]"
| "js_split_loop r q acc (x # xs) =
     (case m r (q, x # xs, no_captures) Some of
        None \<Rightarrow> js_split_loop r (Suc q) (acc @ [x]) xs
      | Some st \<Rightarrow>
          if fst st \<le> q \<and> acc = [] then js_split_loop r (Suc q) (acc @ [x]) xs
          else acc # js_split_loop r (fst st) [] (drop (fst st - q) (x # xs)))"
  by pat_completeness auto
termination
  by (relation "measures [\<lambda>(r, q, acc, s). length s, \<lambda>(r, q, acc, s). length acc]") auto

definition js_split :: "re \<Rightarrow> string \<Rightarrow> string list" where
  "js_split r s =
     (if s = [] then (case m r (0, [], no_captures) Some of None \<Rightarrow> [[]] | Some st \<Rightarrow> [])
      else js_split_loop r 0 [] s)"

definition startsWith :: "string \<Rightarrow> string \<Rightarrow> bool" where
  "startsWith s p = (take (length p) s = p)"

definition endsWith :: "string \<Rightarrow> string \<Rightarrow> bool" where
  "endsWith s p = (length p \<le> length s \<and> drop (length s - length p) s = p)"

text \<open>Truthiness of a value that is a string or \<open>undefined\<close>, and its conversion to a string
  by \<open>+\<close>.\<close>

definition truthy :: "string option \<Rightarrow> bool" where
  "truthy v = (case v of None \<Rightarrow> False | Some s \<Rightarrow> s \<noteq> [])"

definition to_string :: "string option \<Rightarrow> string" where
  "to_string v = (case v of None \<Rightarrow> ''undefined'' | Some s \<Rightarrow> s)"

text \<open>A capture group that is not optional in its pattern is defined whenever the pattern
  matches; \<open>grp\<close> reads such a group.\<close>

definition grp :: "captures \<Rightarrow> nat \<Rightarrow> string" where
  "grp result n = (case result n of None \<Rightarrow> [] | Some s \<Rightarrow> s)"

definition nth_opt :: "'a list \<Rightarrow> nat \<Rightarrow> 'a option" where
  "nth_opt xs i = (if i < length xs then Some (xs ! i) else None)"

section \<open>The patterns of the source\<close>

text \<open>\<open>/^(\t*)((?:\\\\|\\\r?\n?|[^\\])*)(\\)?$/\<close>\<close>

definition line_re_item :: re where
  "line_re_item =
     Alt (Seq (lit BSL) (lit BSL))
         (Alt (seqs [lit BSL, opt (lit CR), opt (lit LF)])
              (Chr (\<lambda>c. c \<noteq> BSL)))"

definition line_re :: re where
  "line_re = seqs
     [Bol, Grp 1 (Star (lit TAB)), Grp 2 (Star line_re_item), opt (Grp 3 (lit BSL)), Eol]"

text \<open>\<open>/\r?\n/\<close>, \<open>/,/\<close> and \<open>/;/\<close>\<close>

definition newline_re :: re where
  "newline_re = seqs [opt (lit CR), lit LF]"

definition comma_re :: re where
  "comma_re = lit CHR '',''"

definition semicolon_re :: re where
  "semicolon_re = lit CHR '';''"

text \<open>\<open>/^#(.+?)$/\<close>\<close>

definition title_re :: re where
  "title_re = seqs [Bol, lit CHR ''#'', Grp 1 (Seq (Chr cls_dot) (Lazy (Chr cls_dot))), Eol]"

text \<open>\<open>/^[A-Za-z0-9]+:/\<close> and \<open>/^\/\//\<close>\<close>

definition cls_alnum :: "char \<Rightarrow> bool" where
  "cls_alnum c = (in_range CHR ''A'' CHR ''Z'' c \<or> in_range CHR ''a'' CHR ''z'' c
                  \<or> in_range CHR ''0'' CHR ''9'' c)"

definition cls_alpha :: "char \<Rightarrow> bool" where
  "cls_alpha c = (in_range CHR ''A'' CHR ''Z'' c \<or> in_range CHR ''a'' CHR ''z'' c)"

definition is_property_re :: re where
  "is_property_re = seqs [Bol, plus (Chr cls_alnum), lit CHR '':'']"

definition is_extended_re :: re where
  "is_extended_re = seqs [Bol, lit CHR ''/'', lit CHR ''/'']"

text \<open>\<open>/^([A-Za-z]\w*):(.*)$/\<close>\<close>

definition property_re :: re where
  "property_re = seqs
     [Bol, Grp 1 (Seq (Chr cls_alpha) (Star (Chr cls_w))), lit CHR '':'',
      Grp 2 (Star (Chr cls_dot)), Eol]"

text \<open>\<open>/^(\w+):(.+)$/\<close>\<close>

definition lang_re :: re where
  "lang_re = seqs
     [Bol, Grp 1 (plus (Chr cls_w)), lit CHR '':'', Grp 2 (plus (Chr cls_dot)), Eol]"

text \<open>\<open>/^\d{4}\/\d{2}\/\d{2}(?: \d{2}:\d{2}(?::\d{2})?)?$/\<close>\<close>

definition d2 :: re where
  "d2 = Seq (Chr cls_d) (Chr cls_d)"

definition date_re :: re where
  "date_re = seqs
     [Bol, d2, d2, lit CHR ''/'', d2, lit CHR ''/'', d2,
      opt (seqs [lit CHR '' '', d2, lit CHR '':'', d2, opt (seqs [lit CHR '':'', d2])]),
      Eol]"

text \<open>\<open>/^(\S+)\s(.*)$/\<close>\<close>

definition contents_re :: re where
  "contents_re = seqs
     [Bol, Grp 1 (plus (Chr cls_S)), Chr cls_s, Grp 2 (Star (Chr cls_dot)), Eol]"

section \<open>Lines, diagnostics and elements\<close>

text \<open>
  \<open>class DV6Line\<close>. The field \<open>line\<close> is the property that \<open>dv6_to_lines\<close> creates on a line
  object by \<open>previous_line.line += result[2]\<close>; the constructor does not set it.
\<close>

record DV6Line =
  line_index :: nat
  last_line_index :: "nat option"
  indent :: nat
  content :: string
  line :: "string option"

definition new_DV6Line :: "nat \<Rightarrow> nat option \<Rightarrow> nat \<Rightarrow> string \<Rightarrow> DV6Line" where
  "new_DV6Line i e n c =
     \<lparr>line_index = i, last_line_index = e, indent = n, content = c, line = None\<rparr>"

text \<open>
  The messages of the source are Japanese texts; each is a constructor here, with the
  interpolated value as its argument. In source order they say: the indent differs from the
  continued line before; the indent rises two or more levels from the line before; the word
  has no content; a property has indented lines; the format of the \<open>spell\<close>, \<open>pron\<close>
  property is wrong; a \<open>dir\<close> property starts with a slash and ends with another character;
  there is an unknown flag; the operation of \<open>author\<close> is one of A, R, I; the date format is
  wrong; the format of the \<open>author\<close> property is wrong; there is an unknown property; the
  format of the property is wrong; content is (mark)(space)(content).
\<close>

datatype message =
    Indent_mismatch
  | Indent_jump
  | Word_no_content
  | Property_has_indent
  | Spell_format
  | Pron_format
  | Dir_format
  | Unknown_flag string
  | Author_operation
  | Date_format string
  | Author_format
  | Unknown_property
  | Property_format
  | Content_format

text \<open>The text before the colon of a diagnostic: one number, or two joined by a hyphen.\<close>

datatype line_description = Single nat | Range nat nat

type_synonym diag = "line_description \<times> message"

text \<open>\<open>DV6Line.error\<close>; the number 0 is falsy.\<close>

definition DV6Line_error :: "DV6Line \<Rightarrow> message \<Rightarrow> diag" where
  "DV6Line_error l msg =
     (case last_line_index l of
        None \<Rightarrow> (Single (line_index l), msg)
      | Some e \<Rightarrow> if e \<noteq> 0 then (Range (line_index l) e, msg) else (Single (line_index l), msg))"

definition is_word :: "DV6Line \<Rightarrow> bool" where
  "is_word l = startsWith (content l) ''#''"

definition is_property :: "DV6Line \<Rightarrow> bool" where
  "is_property l = re_test is_property_re (content l)"

definition is_extended :: "DV6Line \<Rightarrow> bool" where
  "is_extended l = re_test is_extended_re (content l)"

text \<open>
  A child of a head line is a \<open>DV6Line\<close> or a \<open>DV6HeadLine\<close>, which has the fields of a line
  and children. The root \<open>new DV6HeadLine()\<close> has no field but its children, and nothing but
  its children is read: it is the list of them.
\<close>

datatype element = Line DV6Line | HeadLine DV6Line "element list"

fun line_of :: "element \<Rightarrow> DV6Line" where
  "line_of (Line l) = l"
| "line_of (HeadLine l ch) = l"

text \<open>\<open>class DV6Element\<close>: a name, attributes, and children that are strings or elements.\<close>

datatype DV6Element = DV6Element string "(string \<times> string) list" "DV6Child list"
  and DV6Child = Text string | Elem DV6Element

datatype ctor_arg = Arr "DV6Child list" | Obj "(string \<times> string) list"

text \<open>The constructor \<open>DV6Element(name, arg1, arg2)\<close>. The parser passes \<open>arg2\<close> only
  after an object.\<close>

definition new_DV6Element :: "string \<Rightarrow> ctor_arg \<Rightarrow> DV6Child list option \<Rightarrow> DV6Element" where
  "new_DV6Element name arg1 arg2 =
     (case arg2 of
        Some ch \<Rightarrow> DV6Element name (case arg1 of Obj ps \<Rightarrow> ps | Arr xs \<Rightarrow> []) ch
      | None \<Rightarrow> (case arg1 of Arr xs \<Rightarrow> DV6Element name [] xs | Obj ps \<Rightarrow> DV6Element name ps []))"

fun children_push :: "DV6Element \<Rightarrow> DV6Child \<Rightarrow> DV6Element" where
  "children_push (DV6Element n ps ch) c = DV6Element n ps (ch @ [c])"

section \<open>\<open>DV6Parser.dv6_to_lines\<close>\<close>

text \<open>
  The state of the loop is \<open>errors\<close> (here \<open>errs\<close>), \<open>lines\<close> and \<open>line_continued\<close>; a step
  takes the index \<open>line_index\<close> (here \<open>index\<close>) and the text of one physical line.
  \<open>previous_line\<close> is the last element of \<open>lines\<close> at the start of the step and is updated
  in place. A message of \<open>errors\<close> starts with the line number \<open>line_index + 1\<close>.
\<close>

type_synonym lines_state = "diag list \<times> DV6Line list \<times> bool"

fun dv6_to_lines_step :: "lines_state \<Rightarrow> nat \<times> string \<Rightarrow> exn + lines_state" where
  "dv6_to_lines_step (errs, lines, line_continued) (index, raw_line) =
     (case re_exec line_re raw_line of
        None \<Rightarrow> Inl (TypeError ''result'')
      | Some result \<Rightarrow>
          if line_continued then
            (if lines = [] then Inl (TypeError ''previous_line'')
             else
               let previous_line = last lines;
                   errs1 = (if length (grp result 1) \<noteq> indent previous_line
                            then errs @ [(Single (index + 1), Indent_mismatch)]
                            else errs);
                   previous_line1 =
                     previous_line\<lparr>line := Some (to_string (line previous_line) @ grp result 2)\<rparr>
               in if truthy (result 3)
                  then Inr (errs1, butlast lines @ [previous_line1], True)
                  else Inr (errs1,
                            butlast lines @ [previous_line1\<lparr>last_line_index := Some index\<rparr>],
                            False))
          else
            let new_line = new_DV6Line index None (length (grp result 1)) (grp result 2);
                errs1 = (if lines \<noteq> [] \<and> int (indent (last lines)) < int (indent new_line) - 1
                         then errs @ [(Single (index + 1), Indent_jump)]
                         else errs)
            in Inr (errs1, lines @ [new_line], truthy (result 3)))"

fun dv6_to_lines_loop :: "lines_state \<Rightarrow> (nat \<times> string) list \<Rightarrow> exn + lines_state" where
  "dv6_to_lines_loop st [] = Inr st"
| "dv6_to_lines_loop st (ir # irs) =
     (case dv6_to_lines_step st ir of
        Inl e \<Rightarrow> Inl e
      | Inr st1 \<Rightarrow> dv6_to_lines_loop st1 irs)"

definition raw_lines :: "string \<Rightarrow> string list" where
  "raw_lines dv6 = js_split newline_re dv6"

text \<open>After the loop the source evaluates \<open>new Error(erros.join("\n"))\<close> when \<open>errors\<close> is
  not empty; no variable \<open>erros\<close> is declared.\<close>

definition dv6_to_lines :: "string \<Rightarrow> exn + DV6Line list" where
  "dv6_to_lines dv6 =
     (case dv6_to_lines_loop ([], [], False) (enumerate 0 (raw_lines dv6)) of
        Inl e \<Rightarrow> Inl e
      | Inr (errs, lines, line_continued) \<Rightarrow>
          if errs \<noteq> [] then Inl (ReferenceError ''erros'') else Inr lines)"

section \<open>\<open>DV6Parser.flat_to_structured_lines\<close>\<close>

text \<open>
  \<open>structure_stack\<close> holds the root and, above it, the head lines that are still open, each
  already the last child of the one below. Here the open head lines are kept top first,
  each with the children it has so far, beside the children of the root; a head line joins
  the children of the one below when it leaves the stack, or at the end. The stack is \<open>None\<close>
  once \<open>splice\<close> has removed the root with everything else, which happens when the indent
  falls by at least the length of the stack.
\<close>

type_synonym open_head = "DV6Line \<times> element list"

type_synonym structure_stack = "(element list \<times> open_head list) option"

text \<open>\<open>new DV6HeadLine(line)\<close> copies the four fields that the constructor of a line reads.\<close>

definition head_of :: "DV6Line \<Rightarrow> DV6Line" where
  "head_of l = new_DV6Line (line_index l) (last_line_index l) (indent l) (content l)"

fun children_push_top :: "element \<Rightarrow> element list \<times> open_head list \<Rightarrow> element list \<times> open_head list" where
  "children_push_top c (root, []) = (root @ [c], [])"
| "children_push_top c (root, (l, ch) # hs) = (root, (l, ch @ [c]) # hs)"

fun close_heads :: "nat \<Rightarrow> element list \<times> open_head list \<Rightarrow> element list \<times> open_head list" where
  "close_heads 0 st = st"
| "close_heads (Suc k) (root, []) = (root, [])"
| "close_heads (Suc k) (root, (l, ch) # hs) = close_heads k (children_push_top (HeadLine l ch) (root, hs))"

text \<open>\<open>structure_stack.splice(indent_diff, -indent_diff)\<close> for a negative \<open>indent_diff\<close>, with
  \<open>k = -indent_diff\<close>: the last \<open>k\<close> entries go, all of them when there are no more than \<open>k\<close>.\<close>

definition splice_last :: "nat \<Rightarrow> element list \<times> open_head list \<Rightarrow> structure_stack" where
  "splice_last k st = (if length (snd st) + 1 \<le> k then None else Some (close_heads k st))"

fun flat_loop :: "structure_stack \<Rightarrow> DV6Line list \<Rightarrow> exn + structure_stack" where
  "flat_loop stack [] = Inr stack"
| "flat_loop stack (l # rest) =
     (case stack of
        None \<Rightarrow> Inl (TypeError ''current_structure'')
      | Some st \<Rightarrow>
          (case rest of
             [] \<Rightarrow> flat_loop (Some (children_push_top (Line l) st)) rest
           | next_line # others \<Rightarrow>
               if indent next_line > indent l
               then flat_loop (Some (fst st, (head_of l, []) # snd st)) rest
               else if indent next_line < indent l
               then flat_loop (splice_last (indent l - indent next_line)
                                 (children_push_top (Line l) st)) rest
               else flat_loop (Some (children_push_top (Line l) st)) rest))"

text \<open>The result is \<open>structure_stack[0]\<close>: the root, or \<open>undefined\<close> (\<open>None\<close>) when the stack
  is empty.\<close>

definition flat_to_structured_lines :: "DV6Line list \<Rightarrow> exn + element list option" where
  "flat_to_structured_lines lines =
     (case flat_loop (Some ([], [])) lines of
        Inl e \<Rightarrow> Inl e
      | Inr None \<Rightarrow> Inr None
      | Inr (Some st) \<Rightarrow> Inr (Some (fst (close_heads (length (snd st)) st))))"

section \<open>The parser\<close>

text \<open>The parser object holds the two sinks. A method returns its value or the exception
  that left it, and the sinks as they are then.\<close>

record pstate =
  errors :: "diag list"
  warnings :: "diag list"

definition errors_push :: "diag \<Rightarrow> pstate \<Rightarrow> pstate" where
  "errors_push d st = st\<lparr>errors := errors st @ [d]\<rparr>"

definition warnings_push :: "diag \<Rightarrow> pstate \<Rightarrow> pstate" where
  "warnings_push d st = st\<lparr>warnings := warnings st @ [d]\<rparr>"

type_synonym 'a result = "(exn + 'a) \<times> pstate"

definition text_element :: "string \<Rightarrow> string \<Rightarrow> DV6Child" where
  "text_element name v = Elem (new_DV6Element name (Arr [Text v]) None)"

subsection \<open>\<open>parse_properties\<close>\<close>

text \<open>The loop over the dates of an \<open>author\<close> property: a date of the wrong shape is reported
  and then \<open>throw 1\<close> leaves the method.\<close>

fun author_dates :: "DV6Line \<Rightarrow> string list \<Rightarrow> DV6Element \<Rightarrow> pstate \<Rightarrow> DV6Element result" where
  "author_dates element [] author st = (Inr author, st)"
| "author_dates element (date # dates) author st =
     (if re_test date_re date
      then author_dates element dates (children_push author (text_element ''date'' date)) st
      else (Inl (Thrown 1), errors_push (DV6Line_error element (Date_format date)) st))"

definition case_author :: "DV6Line \<Rightarrow> string \<Rightarrow> DV6Child list \<Rightarrow> pstate \<Rightarrow> DV6Child list result" where
  "case_author element v properties st =
     (let author_info = js_split comma_re v in
      if length author_info \<le> 4 then
        (let operation = to_string (nth_opt author_info 0);
             dates_str = nth_opt author_info 1;
             names_str = nth_opt author_info 2;
             sources_str = nth_opt author_info 3
         in if operation \<notin> set [''A'', ''R'', ''I'']
            then (Inr properties, errors_push (DV6Line_error element Author_operation) st)
            else (case dates_str of
                    None \<Rightarrow> (Inl (TypeError ''dates_str''), st)
                  | Some ds \<Rightarrow>
                      (case names_str of
                         None \<Rightarrow> (Inl (TypeError ''names_str''), st)
                       | Some ns \<Rightarrow>
                           let dates = js_split semicolon_re ds;
                               names = js_split semicolon_re ns;
                               sources = (if truthy sources_str
                                          then js_split semicolon_re (to_string sources_str)
                                          else [])
                           in (case author_dates element dates
                                      (new_DV6Element ''author'' (Obj [(''operation'', operation)]) None) st of
                                 (Inl e, st1) \<Rightarrow> (Inl e, st1)
                               | (Inr author, st1) \<Rightarrow>
                                   (Inr (properties @
                                      [Elem (foldl children_push author
                                         (map (text_element ''name'') names @
                                          map (text_element ''source'') sources))]), st1)))))
      else (Inr properties, errors_push (DV6Line_error element Author_format) st))"

definition case_lang :: "string \<Rightarrow> message \<Rightarrow> DV6Line \<Rightarrow> string \<Rightarrow> DV6Child list \<Rightarrow> pstate \<Rightarrow> DV6Child list result" where
  "case_lang name msg element v properties st =
     (case re_exec lang_re v of
        Some r \<Rightarrow> (Inr (properties @
                     [Elem (new_DV6Element name (Obj [(''lang'', grp r 1)]) (Some [Text (grp r 2)]))]), st)
      | None \<Rightarrow> (Inr properties, errors_push (DV6Line_error element msg) st))"

definition known_flags :: "string list" where
  "known_flags = [''SPL'', ''JOKE'', ''MEDICAL'', ''PHARM'', ''MISS'', ''DQN'']"

fun case_flag :: "DV6Line \<Rightarrow> string list \<Rightarrow> DV6Child list \<Rightarrow> pstate \<Rightarrow> DV6Child list \<times> pstate" where
  "case_flag element [] properties st = (properties, st)"
| "case_flag element (flag # flags) properties st =
     case_flag element flags (properties @ [text_element ''flag'' flag])
       (if flag \<in> set known_flags
        then warnings_push (DV6Line_error element (Unknown_flag flag)) st
        else st)"

text \<open>
  The body of the loop of \<open>parse_properties\<close> for one element, in the order of the \<open>switch\<close>.
  In the cases \<open>valid\<close> and \<open>expire\<close> the argument of \<open>test\<close> is the identifier \<open>date\<close>, which
  is declared only inside the loop over the dates of the case \<open>author\<close>: evaluating it is
  a \<open>ReferenceError\<close>, before the pattern is tried.
\<close>

definition parse_properties_step :: "element \<Rightarrow> DV6Child list \<Rightarrow> pstate \<Rightarrow> DV6Child list result" where
  "parse_properties_step element properties st =
     (case element of
        HeadLine l ch \<Rightarrow> (Inr properties, errors_push (DV6Line_error l Property_has_indent) st)
      | Line l \<Rightarrow>
          (case re_exec property_re (content l) of
             None \<Rightarrow> (Inr properties, errors_push (DV6Line_error l Property_format) st)
           | Some r \<Rightarrow>
               let name = grp r 1; v = grp r 2 in
               if name = ''yomi'' then (Inr (properties @ [text_element ''yomi'' v]), st)
               else if name = ''qyomi'' then (Inr (properties @ [text_element ''qyomi'' v]), st)
               else if name = ''spell'' then case_lang ''spell'' Spell_format l v properties st
               else if name = ''pron'' then case_lang ''pron'' Pron_format l v properties st
               else if name = ''pos''
                 then (Inr (properties @ map (text_element ''pos'') (js_split comma_re v)), st)
               else if name = ''dir''
                 then (if startsWith v ''/'' \<and> \<not> endsWith v ''/''
                       then (Inr (properties @ [text_element ''dir'' v]), st)
                       else (Inr properties, errors_push (DV6Line_error l Dir_format) st))
               else if name = ''flag''
                 then (case case_flag l (js_split comma_re v) properties st of
                         (properties1, st1) \<Rightarrow> (Inr properties1, st1))
               else if name = ''author'' then case_author l v properties st
               else if name = ''valid'' then (Inl (ReferenceError ''date''), st)
               else if name = ''expire'' then (Inl (ReferenceError ''date''), st)
               else (Inr properties, warnings_push (DV6Line_error l Unknown_property) st)))"

fun parse_properties_loop :: "element list \<Rightarrow> DV6Child list \<Rightarrow> pstate \<Rightarrow> DV6Child list result" where
  "parse_properties_loop [] properties st = (Inr properties, st)"
| "parse_properties_loop (element # elements) properties st =
     (case parse_properties_step element properties st of
        (Inl e, st1) \<Rightarrow> (Inl e, st1)
      | (Inr properties1, st1) \<Rightarrow> parse_properties_loop elements properties1 st1)"

definition parse_properties :: "element list \<Rightarrow> pstate \<Rightarrow> DV6Element result" where
  "parse_properties elements st =
     (case parse_properties_loop elements [] st of
        (Inl e, st1) \<Rightarrow> (Inl e, st1)
      | (Inr properties, st1) \<Rightarrow> (Inr (new_DV6Element ''properties'' (Arr properties) None), st1))"

subsection \<open>\<open>parse_contents\<close> and \<open>parse_extended\<close>\<close>

text \<open>\<open>parse_contents\<close> reports the lines that are not (mark)(space)(content) and returns
  an element without children; \<open>parse_extended\<close> has an empty body.\<close>

fun parse_contents_loop :: "element list \<Rightarrow> pstate \<Rightarrow> pstate" where
  "parse_contents_loop [] st = st"
| "parse_contents_loop (element # elements) st =
     parse_contents_loop elements
       (case re_exec contents_re (content (line_of element)) of
          Some r \<Rightarrow> st
        | None \<Rightarrow> errors_push (DV6Line_error (line_of element) Content_format) st)"

definition parse_contents :: "element list \<Rightarrow> pstate \<Rightarrow> DV6Element result" where
  "parse_contents elements st =
     (Inr (new_DV6Element ''contents'' (Arr []) None), parse_contents_loop elements st)"

definition parse_extended :: "element list \<Rightarrow> pstate \<Rightarrow> unit result" where
  "parse_extended elements st = (Inr (), st)"

subsection \<open>\<open>parse_top_children\<close>\<close>

text \<open>\<open>findIndex\<close> with the result \<open>-1\<close> replaced by the length, as the source does in the
  next statement, and \<open>slice\<close> for indices that are not negative.\<close>

fun findIndex :: "('a \<Rightarrow> bool) \<Rightarrow> 'a list \<Rightarrow> nat option" where
  "findIndex P [] = None"
| "findIndex P (x # xs) = (if P x then Some 0 else map_option Suc (findIndex P xs))"

definition slice :: "nat \<Rightarrow> nat \<Rightarrow> 'a list \<Rightarrow> 'a list" where
  "slice b e xs = take (min e (length xs) - min b (length xs)) (drop (min b (length xs)) xs)"

definition contents_begin_index :: "element list \<Rightarrow> nat" where
  "contents_begin_index children =
     (case findIndex (\<lambda>element. \<not> is_property (line_of element)) children of
        None \<Rightarrow> length children
      | Some i \<Rightarrow> i)"

definition extended_begin_index :: "element list \<Rightarrow> nat" where
  "extended_begin_index children =
     (case findIndex (\<lambda>element. is_extended (line_of element)) children of
        None \<Rightarrow> length children
      | Some i \<Rightarrow> i)"

definition parse_top_children :: "element list \<Rightarrow> pstate \<Rightarrow> (DV6Element \<times> DV6Element \<times> unit) result" where
  "parse_top_children children st =
     (case parse_properties (slice 0 (contents_begin_index children) children) st of
        (Inl e, st1) \<Rightarrow> (Inl e, st1)
      | (Inr properties, st1) \<Rightarrow>
          (case parse_contents
                  (slice (contents_begin_index children) (extended_begin_index children) children) st1 of
             (Inl e, st2) \<Rightarrow> (Inl e, st2)
           | (Inr contents, st2) \<Rightarrow>
               (case parse_extended
                       (slice (extended_begin_index children) (length children) children) st2 of
                  (Inl e, st3) \<Rightarrow> (Inl e, st3)
                | (Inr extended, st3) \<Rightarrow> (Inr (properties, contents, extended), st3))))"

subsection \<open>\<open>parse_word\<close>, \<open>parse_toplevel\<close> and \<open>parse\<close>\<close>

text \<open>\<open>structure.content.match(/^#(.+?)$/)[1]\<close> reads index 1 of the result of \<open>match\<close>, which is
  \<open>null\<close> when the pattern does not match.\<close>

definition parse_word :: "DV6Line \<Rightarrow> element list \<Rightarrow> pstate \<Rightarrow> DV6Element result" where
  "parse_word structure children st =
     (case re_exec title_re (content structure) of
        None \<Rightarrow> (Inl (TypeError ''structure.content.match''), st)
      | Some r \<Rightarrow>
          (case parse_top_children children st of
             (Inl e, st1) \<Rightarrow> (Inl e, st1)
           | (Inr (properties, contents, extended), st1) \<Rightarrow>
               (Inr (new_DV6Element ''word''
                       (Arr [text_element ''name'' (grp r 1), Elem properties, Elem contents]) None),
                st1)))"

text \<open>The function that \<open>parse_toplevel\<close> maps over the children of the root: its value is
  a word or \<open>undefined\<close>.\<close>

definition parse_toplevel_element :: "element \<Rightarrow> pstate \<Rightarrow> DV6Element option result" where
  "parse_toplevel_element element st =
     (if is_word (line_of element) then
        (case element of
           HeadLine l ch \<Rightarrow>
             (case parse_word l ch st of
                (Inl e, st1) \<Rightarrow> (Inl e, st1)
              | (Inr word, st1) \<Rightarrow> (Inr (Some word), st1))
         | Line l \<Rightarrow> (Inr None, errors_push (DV6Line_error l Word_no_content) st))
      else (Inr None, st))"

fun parse_toplevel_map :: "element list \<Rightarrow> pstate \<Rightarrow> DV6Element option list result" where
  "parse_toplevel_map [] st = (Inr [], st)"
| "parse_toplevel_map (element # elements) st =
     (case parse_toplevel_element element st of
        (Inl e, st1) \<Rightarrow> (Inl e, st1)
      | (Inr w, st1) \<Rightarrow>
          (case parse_toplevel_map elements st1 of
             (Inl e, st2) \<Rightarrow> (Inl e, st2)
           | (Inr ws, st2) \<Rightarrow> (Inr (w # ws), st2)))"

definition parse_toplevel :: "element list option \<Rightarrow> pstate \<Rightarrow> DV6Element list result" where
  "parse_toplevel structure st =
     (case structure of
        None \<Rightarrow> (Inl (TypeError ''structure''), st)
      | Some children \<Rightarrow>
          (case parse_toplevel_map children st of
             (Inl e, st1) \<Rightarrow> (Inl e, st1)
           | (Inr ws, st1) \<Rightarrow> (Inr (List.map_filter (\<lambda>w. w) ws), st1)))"

text \<open>A new parser has empty sinks; \<open>parse\<close> stores the value of \<open>parse_toplevel\<close> as the
  result.\<close>

definition new_DV6Parser :: pstate where
  "new_DV6Parser = \<lparr>errors = [], warnings = []\<rparr>"

definition parse :: "string \<Rightarrow> DV6Element list result" where
  "parse dv6 =
     (case dv6_to_lines dv6 of
        Inl e \<Rightarrow> (Inl e, new_DV6Parser)
      | Inr lines \<Rightarrow>
          (case flat_to_structured_lines lines of
             Inl e \<Rightarrow> (Inl e, new_DV6Parser)
           | Inr structured_lines \<Rightarrow> parse_toplevel structured_lines new_DV6Parser))"

section \<open>Facts about the matcher\<close>

text \<open>The equations of the matcher applied to a state and a continuation; the defining
  equations themselves leave the simpset, so that a matcher passed as an argument stays
  folded.\<close>

lemma orelse_simps [simp]:
  "orelse None b = b" "orelse (Some x) b = Some x" "orelse a None = a"
  by (simp_all add: orelse_def split: option.splits)

lemma m_Chr_Nil [simp]: "m (Chr P) (p, [], c) k = None"
  and m_Chr_Cons [simp]: "m (Chr P) (p, x # xs, c) k = (if P x then k (Suc p, xs, c) else None)"
  and m_Bol [simp]: "m Bol (p, s, c) k = (if p = 0 then k (p, s, c) else None)"
  and m_Eol [simp]: "m Eol (p, s, c) k = (if s = [] then k (p, s, c) else None)"
  and m_Eps [simp]: "m Eps st k = k st"
  and m_Seq [simp]: "m (Seq a b) st k = m a st (\<lambda>st'. m b st' k)"
  and m_Alt [simp]: "m (Alt a b) st k = orelse (m a st k) (m b st k)"
  and m_Star [simp]: "m (Star a) (p, s, c) k = rep_greedy (length s) (m a) (p, s, c) k"
  and m_Lazy [simp]: "m (Lazy a) (p, s, c) k = rep_lazy (length s) (m a) (p, s, c) k"
  and m_Grp [simp]: "m (Grp n a) (p, s, c) k =
        m a (p, s, c) (\<lambda>st'. k (fst st', fst (snd st'), (snd (snd st'))(n := Some (take (fst st' - p) s))))"
  by (simp_all add: case_prod_beta)

lemma rep_greedy_0 [simp]: "rep_greedy 0 body st k = k st"
  and rep_greedy_Suc: "rep_greedy (Suc n) body st k =
        orelse (body st (\<lambda>st'. if progress st st' then rep_greedy n body st' k else None)) (k st)"
  and rep_lazy_0 [simp]: "rep_lazy 0 body st k = k st"
  and rep_lazy_Suc: "rep_lazy (Suc n) body st k =
        orelse (k st) (body st (\<lambda>st'. if progress st st' then rep_lazy n body st' k else None))"
  by simp_all

declare m.simps [simp del] rep_greedy.simps [simp del] rep_lazy.simps [simp del]

lemma progress_simp [simp]: "progress (p, s, c) (p', s', c') = (length s' < length s)"
  by (simp add: progress_def)

lemma no_captures_apply [simp]: "no_captures n = None"
  by (simp add: no_captures_def)

text \<open>A pattern that starts with \<open>^\<close> matches at position 0 or not at all.\<close>

lemma re_search_Bol_Suc: "re_search (Seq Bol r) (Suc p) s = None"
  by (induction s arbitrary: p) simp_all

lemma re_exec_Bol:
  "re_exec (Seq Bol r) s =
     (case m r (0, s, no_captures) Some of
        Some st \<Rightarrow> Some ((snd (snd st))(0 := Some (take (fst st) s)))
      | None \<Rightarrow> None)"
  by (cases s) (simp_all add: re_exec_def re_search_Bol_Suc split: option.splits)

text \<open>
  A quantified character class in front of a continuation that fails on every state with
  input left: the class has to take the whole rest, greedy or lazy. And in front of a
  continuation that succeeds after the longest run of the class: the greedy quantifier
  returns that first success.
\<close>

lemma rep_greedy_nil:
  "rep_greedy n (m (Chr P)) (p, [], c) K = K (p, [], c)"
  by (cases n) (simp_all add: rep_greedy_Suc)

lemma rep_lazy_nil:
  "rep_lazy n (m (Chr P)) (p, [], c) K = K (p, [], c)"
  by (cases n) (simp_all add: rep_lazy_Suc)

lemma rep_greedy_Chr_end:
  assumes "\<forall>p' x xs c'. K (p', x # xs, c') = None"
  shows "length s \<le> n \<Longrightarrow>
     rep_greedy n (m (Chr P)) (p, s, c) K = (if list_all P s then K (p + length s, [], c) else None)"
proof (induction s arbitrary: n p)
  case Nil
  show ?case by (simp add: rep_greedy_nil)
next
  case (Cons x xs)
  then obtain n' where n: "n = Suc n'" "length xs \<le> n'" by (cases n) auto
  show ?case using assms Cons.IH [OF n(2), of "Suc p"]
    by (simp add: n rep_greedy_Suc rep_lazy_Suc)
qed

lemma rep_lazy_Chr_end:
  assumes "\<forall>p' x xs c'. K (p', x # xs, c') = None"
  shows "length s \<le> n \<Longrightarrow>
     rep_lazy n (m (Chr P)) (p, s, c) K = (if list_all P s then K (p + length s, [], c) else None)"
proof (induction s arbitrary: n p)
  case Nil
  show ?case by (simp add: rep_lazy_nil)
next
  case (Cons x xs)
  then obtain n' where n: "n = Suc n'" "length xs \<le> n'" by (cases n) auto
  show ?case using assms Cons.IH [OF n(2), of "Suc p"]
    by (simp add: n rep_greedy_Suc rep_lazy_Suc)
qed

lemma rep_greedy_Chr_first:
  "length s \<le> n \<Longrightarrow> K (p + length (takeWhile P s), dropWhile P s, c) = Some r \<Longrightarrow>
     rep_greedy n (m (Chr P)) (p, s, c) K = Some r"
proof (induction s arbitrary: n p)
  case Nil
  then show ?case by (simp add: rep_greedy_nil)
next
  case (Cons x xs)
  then obtain n' where n: "n = Suc n'" "length xs \<le> n'" by (cases n) auto
  show ?case
  proof (cases "P x")
    case True
    with Cons.prems have "K (Suc p + length (takeWhile P xs), dropWhile P xs, c) = Some r" by simp
    from Cons.IH [OF n(2) this] True show ?thesis
      by (simp add: n rep_greedy_Suc rep_lazy_Suc)
  next
    case False
    with Cons.prems show ?thesis by (simp add: n rep_greedy_Suc)
  qed
qed

lemma takeWhile_append_stop:
  "list_all P xs \<Longrightarrow> \<not> P y \<Longrightarrow> takeWhile P (xs @ y # ys) = xs"
  by (induction xs) simp_all

lemma dropWhile_append_stop:
  "list_all P xs \<Longrightarrow> \<not> P y \<Longrightarrow> dropWhile P (xs @ y # ys) = y # ys"
  by (induction xs) simp_all

section \<open>Facts about the patterns of the source\<close>

text \<open>
  The second group of the line pattern can take every code unit, a backslash too (by its
  second alternative, with nothing after the backslash). So the greedy quantifier reaches
  the end of the line on its first path, the pattern matches every line, and the third
  group never takes part in the match.
\<close>

lemma rep_greedy_line_re_item:
  "length s \<le> n \<Longrightarrow> K (p + length s, [], c) = Some r \<Longrightarrow>
     rep_greedy n (m line_re_item) (p, s, c) K = Some r"
proof (induction "length s" arbitrary: s n p rule: less_induct)
  case less
  show ?case
  proof (cases s)
    case Nil
    with less.prems show ?thesis
      by (cases n) (simp_all add: rep_greedy_Suc line_re_item_def seqs_def opt_def lit_def)
  next
    case (Cons x xs)
    with less.prems obtain n' where n: "n = Suc n'" "length xs \<le> n'" by (cases n) auto
    have IH: "\<And>t q. length t \<le> length xs \<Longrightarrow> q + length t = p + length s \<Longrightarrow>
                rep_greedy n' (m line_re_item) (q, t, c) K = Some r"
      using less.hyps less.prems(2) n(2) Cons by (metis le_imp_less_Suc le_trans length_Cons)
    show ?thesis
    proof (cases "x = BSL")
      case False
      then show ?thesis using IH [of xs "Suc p"] Cons
        by (simp add: n rep_greedy_Suc line_re_item_def seqs_def opt_def lit_def)
    next
      case True
      show ?thesis
      proof (cases xs)
        case Nil
        then show ?thesis using IH [of "[]" "Suc p"] Cons True
          by (simp add: n rep_greedy_Suc line_re_item_def seqs_def opt_def lit_def)
      next
        case (Cons y ys)
        note xs = Cons
        show ?thesis
        proof (cases ys)
          case Nil
          then show ?thesis
            using IH [of "[]" "Suc (Suc p)"] IH [of "[y]" "Suc p"] \<open>s = x # xs\<close> True xs
            by (simp add: n rep_greedy_Suc line_re_item_def seqs_def opt_def lit_def)
        next
          case (Cons z zs)
          then show ?thesis
            using IH [of "zs" "Suc (Suc (Suc p))"] IH [of "z # zs" "Suc (Suc p)"] IH [of "y # z # zs" "Suc p"]
              \<open>s = x # xs\<close> True xs
            by (simp add: n rep_greedy_Suc line_re_item_def seqs_def opt_def lit_def)
        qed
      qed
    qed
  qed
qed

lemma line_re_exec:
  "re_exec line_re s =
     Some (no_captures(1 := Some (takeWhile (\<lambda>c. c = TAB) s),
                       2 := Some (dropWhile (\<lambda>c. c = TAB) s),
                       0 := Some s))"
proof -
  let ?P = "\<lambda>c. c = TAB"
  let ?c1 = "no_captures(1 := Some (takeWhile ?P s))"
  let ?c2 = "?c1(2 := Some (dropWhile ?P s))"
  have len: "length (takeWhile ?P s) + length (dropWhile ?P s) = length s"
    by (metis length_append takeWhile_dropWhile_id)
  have len2: "length s - length (takeWhile ?P s) = length (dropWhile ?P s)"
    using len by arith
  have tk: "take (length (takeWhile ?P s)) s = takeWhile ?P s"
    by (metis append_eq_conv_conj takeWhile_dropWhile_id)
  have "m (seqs [Grp 1 (Star (lit TAB)), Grp 2 (Star line_re_item), opt (Grp 3 (lit BSL)), Eol])
          (0, s, no_captures) Some = Some (length s, [], ?c2)"
    apply (simp add: seqs_def opt_def lit_def)
    apply (rule rep_greedy_Chr_first)
     apply simp
    apply (simp add: tk)
    apply (rule rep_greedy_line_re_item)
     apply simp
    apply (simp add: len len2)
    done
  then show ?thesis
    using re_exec_Bol [of "seqs [Grp 1 (Star (lit TAB)), Grp 2 (Star line_re_item), opt (Grp 3 (lit BSL)), Eol]" s]
    by (simp add: line_re_def seqs_def)
qed

text \<open>The property pattern on a name, a colon and a value without line terminators.\<close>

lemma not_cls_w_colon [simp]: "\<not> cls_w CHR '':''"
  by (simp add: cls_w_def in_range_def)

lemma property_re_exec:
  assumes "cls_alpha a" and "list_all cls_w as" and "list_all cls_dot v"
  shows "re_exec property_re (a # as @ '':'' @ v) =
           Some (no_captures(1 := Some (a # as), 2 := Some v, 0 := Some (a # as @ '':'' @ v)))"
proof -
  have tw: "takeWhile cls_w (as @ CHR '':'' # v) = as"
    and dw: "dropWhile cls_w (as @ CHR '':'' # v) = CHR '':'' # v"
    using assms(2) by (simp_all add: takeWhile_append_stop dropWhile_append_stop)
  have "m (seqs [Grp 1 (Seq (Chr cls_alpha) (Star (Chr cls_w))), lit CHR '':'',
                 Grp 2 (Star (Chr cls_dot)), Eol]) (0, a # as @ '':'' @ v, no_captures) Some =
          Some (Suc (length as) + 1 + length v, [], no_captures(1 := Some (a # as), 2 := Some v))"
    apply (simp add: seqs_def lit_def assms(1))
    apply (rule rep_greedy_Chr_first)
     apply simp
    apply (simp add: tw dw)
    apply (subst rep_greedy_Chr_end)
      apply simp
     apply simp
    apply (simp add: assms(3))
    done
  then show ?thesis
    using re_exec_Bol [of "seqs [Grp 1 (Seq (Chr cls_alpha) (Star (Chr cls_w))), lit CHR '':'',
                 Grp 2 (Star (Chr cls_dot)), Eol]" "a # as @ '':'' @ v"]
    by (simp add: property_re_def seqs_def)
qed

text \<open>The title pattern matches a \<open>#\<close> followed by at least one code unit, and its group
  is all that follows the \<open>#\<close>.\<close>

lemma title_re_exec:
  assumes "re_exec title_re s = Some r"
  shows "\<exists>t. s = CHR ''#'' # t \<and> t \<noteq> [] \<and> grp r 1 = t"
proof (cases s)
  case Nil
  with assms show ?thesis by (simp add: title_re_def seqs_def lit_def re_exec_Bol)
next
  case (Cons x xs)
  note s = Cons
  show ?thesis
  proof (cases xs)
    case Nil
    with assms s show ?thesis
      by (simp add: title_re_def seqs_def lit_def re_exec_Bol split: if_splits)
  next
    case (Cons y ys)
    from assms s Cons show ?thesis
      by (auto simp: title_re_def seqs_def lit_def re_exec_Bol rep_lazy_Chr_end grp_def
          split: if_splits)
  qed
qed

text \<open>The two predicates of the classifier: an extended line starts with two slashes, a
  property line with a letter or a digit.\<close>

lemma is_extended_iff: "is_extended l = (take 2 (content l) = ''//'')"
proof -
  have "re_exec is_extended_re s \<noteq> None \<longleftrightarrow> take 2 s = ''//''" for s
  proof (cases s)
    case Nil
    then show ?thesis by (simp add: is_extended_re_def seqs_def lit_def re_exec_Bol)
  next
    case (Cons x xs)
    then show ?thesis
      by (cases xs) (simp_all add: is_extended_re_def seqs_def lit_def re_exec_Bol)
  qed
  then show ?thesis by (simp add: is_extended_def re_test_def)
qed

lemma is_property_hd:
  assumes "is_property l"
  shows "content l \<noteq> [] \<and> cls_alnum (hd (content l))"
proof -
  have "re_exec is_property_re s \<noteq> None \<Longrightarrow> s \<noteq> [] \<and> cls_alnum (hd s)" for s
    by (cases s) (auto simp: is_property_re_def seqs_def lit_def plus_def re_exec_Bol split: if_splits)
  with assms show ?thesis by (simp add: is_property_def re_test_def)
qed

lemma extended_not_property: "is_extended l \<Longrightarrow> \<not> is_property l"
proof
  assume e: "is_extended l" and p: "is_property l"
  from e have "take 2 (content l) = ''//''" by (simp add: is_extended_iff)
  then have "hd (content l) = CHR ''/''" by (cases "content l") auto
  moreover from p have "cls_alnum (hd (content l))" by (simp add: is_property_hd)
  ultimately show False by (simp add: cls_alnum_def in_range_def)
qed

section \<open>Facts about the methods\<close>

text \<open>No step of the line splitter sets \<open>line_continued\<close>: every physical line becomes a
  line of its own.\<close>

lemma dv6_to_lines_step_not_continued:
  "\<exists>errs1. dv6_to_lines_step (errs, lines, False) (i, raw) =
     Inr (errs1,
          lines @ [new_DV6Line i None (length (takeWhile (\<lambda>c. c = TAB) raw))
                     (dropWhile (\<lambda>c. c = TAB) raw)],
          False)"
  by (simp add: line_re_exec grp_def truthy_def Let_def)

lemma dv6_to_lines_loop_lines:
  "dv6_to_lines_loop (errs, lines, False) (enumerate k raws) = Inr (errs1, lines1, b) \<Longrightarrow>
     lines1 = lines @ map (\<lambda>(i, raw). new_DV6Line i None (length (takeWhile (\<lambda>c. c = TAB) raw))
                                  (dropWhile (\<lambda>c. c = TAB) raw)) (enumerate k raws)"
proof (induction raws arbitrary: errs lines k)
  case Nil
  then show ?case by simp
next
  case (Cons raw raws)
  obtain errs2 where step: "dv6_to_lines_step (errs, lines, False) (k, raw) =
     Inr (errs2, lines @ [new_DV6Line k None (length (takeWhile (\<lambda>c. c = TAB) raw))
                     (dropWhile (\<lambda>c. c = TAB) raw)], False)"
    using dv6_to_lines_step_not_continued by blast
  from Cons.prems have "dv6_to_lines_loop (errs2, lines @ [new_DV6Line k None (length (takeWhile (\<lambda>c. c = TAB) raw))
                     (dropWhile (\<lambda>c. c = TAB) raw)], False) (enumerate (Suc k) raws) = Inr (errs1, lines1, b)"
    by (simp add: step del: dv6_to_lines_step.simps)
  from Cons.IH [OF this] show ?case by simp
qed

lemma dv6_to_lines_lines:
  assumes "dv6_to_lines dv6 = Inr ls"
  shows "ls = map (\<lambda>(i, raw). new_DV6Line i None (length (takeWhile (\<lambda>c. c = TAB) raw))
                                  (dropWhile (\<lambda>c. c = TAB) raw)) (enumerate 0 (raw_lines dv6))"
proof -
  from assms obtain errs b where
    "dv6_to_lines_loop ([], [], False) (enumerate 0 (raw_lines dv6)) = Inr (errs, ls, b)"
    by (auto simp: dv6_to_lines_def split: sum.splits if_splits)
  from dv6_to_lines_loop_lines [OF this] show ?thesis by simp
qed

lemma startsWith_slash: "startsWith v ''/'' = (v \<noteq> [] \<and> hd v = CHR ''/'')"
  by (cases v) (simp_all add: startsWith_def)

lemma endsWith_slash: "endsWith v ''/'' = (v \<noteq> [] \<and> last v = CHR ''/'')"
proof (cases v rule: rev_cases)
  case Nil
  then show ?thesis by (simp add: endsWith_def)
next
  case (snoc ys y)
  then show ?thesis by (simp add: endsWith_def)
qed

lemma findIndex_None: "findIndex P xs = None \<longleftrightarrow> (\<forall>x\<in>set xs. \<not> P x)"
  by (induction xs) auto

lemma findIndex_le_length: "findIndex P xs = Some i \<Longrightarrow> i < length xs"
  by (induction xs arbitrary: i) (auto split: if_splits)

lemma findIndex_mono:
  "(\<And>x. Q x \<Longrightarrow> P x) \<Longrightarrow> findIndex Q xs = Some j \<Longrightarrow> \<exists>i\<le>j. findIndex P xs = Some i"
  by (induction xs arbitrary: j) (auto split: if_splits)

lemma contents_begin_le_length: "contents_begin_index ch \<le> length ch"
  by (auto simp: contents_begin_index_def dest: findIndex_le_length split: option.splits)

lemma extended_begin_le_length: "extended_begin_index ch \<le> length ch"
  by (auto simp: extended_begin_index_def dest: findIndex_le_length split: option.splits)

lemma contents_begin_le_extended_begin: "contents_begin_index ch \<le> extended_begin_index ch"
proof (cases "findIndex (\<lambda>element. is_extended (line_of element)) ch")
  case None
  then show ?thesis
    using contents_begin_le_length [of ch] by (simp add: extended_begin_index_def)
next
  case (Some j)
  have "\<exists>i\<le>j. findIndex (\<lambda>element. \<not> is_property (line_of element)) ch = Some i"
    by (rule findIndex_mono [OF _ Some]) (simp add: extended_not_property)
  then show ?thesis
    by (auto simp: Some extended_begin_index_def contents_begin_index_def)
qed

lemma slices_cover:
  "b \<le> e \<Longrightarrow> e \<le> length xs \<Longrightarrow> slice 0 b xs @ slice b e xs @ slice e (length xs) xs = xs"
proof -
  assume be: "b \<le> e" and el: "e \<le> length xs"
  have "take b xs @ take (e - b) (drop b xs) = take e xs"
    using be by (metis le_add_diff_inverse take_add)
  then have "take b xs @ take (e - b) (drop b xs) @ drop e xs = xs"
    by (metis append.assoc append_take_drop_id)
  then show ?thesis using be el by (simp add: slice_def min_def)
qed

text \<open>The shape of a word, and where the words of the result come from.\<close>

lemma parse_word_shape:
  assumes "parse_word l ch st = (Inr w, st1)"
  shows "\<exists>title properties. content l = CHR ''#'' # title \<and>
           w = DV6Element ''word'' []
                 [Elem (DV6Element ''name'' [] [Text title]),
                  Elem (DV6Element ''properties'' [] properties),
                  Elem (DV6Element ''contents'' [] [])]"
proof -
  from assms obtain r where r: "re_exec title_re (content l) = Some r"
    by (auto simp: parse_word_def split: option.splits)
  from title_re_exec [OF r] obtain t where t: "content l = CHR ''#'' # t" "grp r 1 = t"
    by blast
  from assms r t show ?thesis
    by (auto simp: parse_word_def parse_top_children_def parse_properties_def parse_contents_def
        parse_extended_def new_DV6Element_def text_element_def
        split: prod.splits sum.splits)
qed

lemma parse_toplevel_map_shape:
  "parse_toplevel_map es st = (Inr ws, st1) \<Longrightarrow> Some w \<in> set ws \<Longrightarrow>
     \<exists>l ch sta stb. HeadLine l ch \<in> set es \<and> parse_word l ch sta = (Inr w, stb)"
proof (induction es arbitrary: st ws)
  case Nil
  then show ?case by simp
next
  case (Cons e es)
  from Cons.prems(1) obtain v st2 vs where
    e: "parse_toplevel_element e st = (Inr v, st2)"
    and es: "parse_toplevel_map es st2 = (Inr vs, st1)"
    and ws: "ws = v # vs"
    by (auto split: prod.splits sum.splits)
  from Cons.prems(2) ws consider "v = Some w" | "Some w \<in> set vs" by auto
  then show ?case
  proof cases
    case 1
    with e obtain l ch where "e = HeadLine l ch" "parse_word l ch st = (Inr w, st2)"
      by (auto simp: parse_toplevel_element_def split: if_splits element.splits prod.splits sum.splits)
    then show ?thesis by auto
  next
    case 2
    from Cons.IH [OF es 2] show ?thesis by auto
  qed
qed

text \<open>The \<open>flag\<close> case warns about the items that are in \<open>known_flags\<close>, and about no other;
  the \<open>valid\<close> case ends with a \<open>ReferenceError\<close> whatever the value is.\<close>

lemma case_flag_result:
  "case_flag element flags properties st =
     (properties @ map (text_element ''flag'') flags,
      st\<lparr>warnings := warnings st @
           map (\<lambda>flag. DV6Line_error element (Unknown_flag flag))
             (filter (\<lambda>flag. flag \<in> set known_flags) flags)\<rparr>)"
  by (induction flags arbitrary: properties st) (simp_all add: warnings_push_def)

lemma valid_reference_error:
  assumes "content l = ''valid:'' @ v" and "list_all cls_dot v"
  shows "parse_properties_step (Line l) properties st = (Inl (ReferenceError ''date''), st)"
proof -
  have "re_exec property_re (CHR ''v'' # ''alid'' @ '':'' @ v) =
          Some (no_captures(1 := Some (CHR ''v'' # ''alid''), 2 := Some v,
                            0 := Some (CHR ''v'' # ''alid'' @ '':'' @ v)))"
    by (rule property_re_exec) (simp_all add: cls_alpha_def cls_w_def in_range_def assms(2))
  then have "re_exec property_re (content l) =
          Some (no_captures(1 := Some ''valid'', 2 := Some v, 0 := Some (''valid:'' @ v)))"
    by (simp add: assms(1))
  then show ?thesis
    by (simp add: parse_properties_step_def grp_def)
qed

section \<open>The claims\<close>

text \<open>
  C1. The claim: for a property line \<open>flag:v\<close> one \<open>flag\<close> node is produced per item, and a
  warning is emitted for exactly the items that are not in the known set. The code tests
  \<open>known_flags.includes(flag)\<close> without a negation: on \<open>flag:SPL,FOO\<close> both nodes are produced,
  the known flag \<open>SPL\<close> gets the warning that says the flag is unknown, and the unknown
  flag \<open>FOO\<close> gets none.
\<close>

theorem C1_flag_warning_polarity:
  "parse (''#w'' @ [LF, TAB] @ ''flag:SPL,FOO'') =
     (Inr [DV6Element ''word'' []
             [Elem (DV6Element ''name'' [] [Text ''w'']),
              Elem (DV6Element ''properties'' []
                      [Elem (DV6Element ''flag'' [] [Text ''SPL'']),
                       Elem (DV6Element ''flag'' [] [Text ''FOO''])]),
              Elem (DV6Element ''contents'' [] [])]],
      \<lparr>errors = [], warnings = [(Single 1, Unknown_flag ''SPL'')]\<rparr>)"
  by code_simp

text \<open>
  C2. The claim: a validation failure of a property line, in particular an \<open>author\<close> date of
  the wrong shape, appends a diagnostic and the following property lines are processed; no
  such failure raises an exception. The code appends the diagnostic and then executes
  \<open>throw 1\<close>: the parse of the entry below ends with that exception, and the line \<open>yomi:x\<close>
  after the \<open>author\<close> line is not processed.
\<close>

theorem C2_author_date_throws:
  "parse (''#w'' @ [LF, TAB] @ ''author:A,2020-01-01,Alice'' @ [LF, TAB] @ ''yomi:x'') =
     (Inl (Thrown 1), \<lparr>errors = [(Single 1, Date_format ''2020-01-01'')], warnings = []\<rparr>)"
  by code_simp

text \<open>
  C3. The claim: a property line \<open>valid:v\<close> with \<open>v\<close> of the shape \<open>YYYY/MM/DD\<close> appends a
  \<open>valid\<close> node carrying \<open>v\<close>. The code tests the undeclared identifier \<open>date\<close> instead of
  \<open>value\<close>: the parse ends with a \<open>ReferenceError\<close>, with no node and no diagnostic.
\<close>

theorem C3_valid_reference_error:
  "parse (''#w'' @ [LF, TAB] @ ''valid:2020/01/01'') =
     (Inl (ReferenceError ''date''), \<lparr>errors = [], warnings = []\<rparr>)"
  by code_simp

text \<open>
  C4. The claim: the indentation errors that the line splitter collects, such as a line at
  indent 2 right after a line at indent 0, are reported as one failure whose message joins
  the collected messages. On such an input the loop collects the error of the rise by two
  levels for line 2, and the function then ends with a \<open>ReferenceError\<close> for the
  undeclared identifier \<open>erros\<close>, which carries none of the collected messages.
\<close>

theorem C4_reference_error:
  "dv6_to_lines_loop ([], [], False) (enumerate 0 (raw_lines (''a'' @ [LF, TAB, TAB] @ ''b''))) =
     Inr ([(Single 2, Indent_jump)], [new_DV6Line 0 None 0 ''a'', new_DV6Line 1 None 2 ''b''], False)
   \<and> dv6_to_lines (''a'' @ [LF, TAB, TAB] @ ''b'') = Inl (ReferenceError ''erros'')"
  by code_simp

text \<open>
  C5. The claim: the input tab, \<open>abc\<close>, backslash, newline, tab, \<open>def\<close> gives one logical
  line of indent 1 and text \<open>abcdef\<close>. The code gives two lines: the second group of the
  line pattern takes the backslash at the end of the first physical line, the third group
  stays undefined, and no line is continued.
\<close>

theorem C5_continuation_not_merged:
  "dv6_to_lines ([TAB] @ ''abc'' @ [BSL, LF, TAB] @ ''def'') =
     Inr [new_DV6Line 0 None 1 (''abc'' @ [BSL]), new_DV6Line 1 None 1 ''def'']"
  by code_simp

text \<open>
  C6 as stated fails: the claim says that the line made for a physical line records the
  1-based number of that line and that a diagnostic of the line shows that number. For the
  one-line input \<open>#w\<close> the line made for physical line 1 records 0, and the diagnostic
  that \<open>parse\<close> appends for it shows 0.
\<close>

theorem C6_one_based_counterexample:
  "dv6_to_lines ''#w'' = Inr [new_DV6Line 0 None 0 ''#w'']
   \<and> line_index (new_DV6Line 0 None 0 ''#w'') \<noteq> 1
   \<and> parse ''#w'' = (Inr [], \<lparr>errors = [(Single 0, Word_no_content)], warnings = []\<rparr>)"
  by code_simp

text \<open>
  C6, amended: for every physical line, the line made for it records as \<open>line_index\<close> the
  0-based index of that physical line, one less than its 1-based number. When the
  splitter returns, line \<open>i\<close> of the result is made from physical line \<open>i\<close> (counted from
  0): its indent is the number of leading tabs of that line, its content the rest of it,
  and its \<open>line_index\<close> is \<open>i\<close>.
\<close>

theorem C6_line_index_zero_based:
  assumes "dv6_to_lines dv6 = Inr ls" and "i < length ls"
  shows "i < length (raw_lines dv6)
       \<and> line_index (ls ! i) = i
       \<and> indent (ls ! i) = length (takeWhile (\<lambda>c. c = TAB) (raw_lines dv6 ! i))
       \<and> content (ls ! i) = dropWhile (\<lambda>c. c = TAB) (raw_lines dv6 ! i)"
  using assms(2) unfolding dv6_to_lines_lines [OF assms(1)]
  by (simp add: nth_enumerate_eq new_DV6Line_def)

text \<open>The amended C6 on a text of two physical lines.\<close>

theorem C6_line_index_zero_based_witness:
  "dv6_to_lines (''#a'' @ [LF, TAB] @ ''yomi:b'') = Inr [new_DV6Line 0 None 0 ''#a'', new_DV6Line 1 None 1 ''yomi:b'']
   \<and> raw_lines (''#a'' @ [LF, TAB] @ ''yomi:b'') ! 1 = [TAB] @ ''yomi:b''
   \<and> line_index ([new_DV6Line 0 None 0 ''#a'', new_DV6Line 1 None 1 ''yomi:b''] ! 1) = 1"
proof -
  have h: "dv6_to_lines (''#a'' @ [LF, TAB] @ ''yomi:b'') = Inr [new_DV6Line 0 None 0 ''#a'', new_DV6Line 1 None 1 ''yomi:b'']"
    by code_simp
  have r: "raw_lines (''#a'' @ [LF, TAB] @ ''yomi:b'') ! 1 = [TAB] @ ''yomi:b''"
    by code_simp
  have i: "1 < length [new_DV6Line 0 None 0 ''#a'', new_DV6Line 1 None 1 ''yomi:b'']" by simp
  from C6_line_index_zero_based [OF h i] h r show ?thesis by simp
qed

text \<open>
  C7. For a property line \<open>dir:v\<close> a \<open>dir\<close> node is produced exactly when \<open>v\<close> starts with a
  slash and does not end with one; otherwise an error is appended and no node is produced.
  In both cases the loop goes on with the next elements. A property line is one physical
  line, so \<open>v\<close> has no line feed; a carriage return in \<open>v\<close> would keep the property pattern
  from matching.
\<close>

theorem C7_dir:
  assumes "content l = ''dir:'' @ v" and "CR \<notin> set v" and "LF \<notin> set v"
  shows "parse_properties_loop (Line l # elements) properties st =
           (if v \<noteq> [] \<and> hd v = CHR ''/'' \<and> last v \<noteq> CHR ''/''
            then parse_properties_loop elements (properties @ [Elem (DV6Element ''dir'' [] [Text v])]) st
            else parse_properties_loop elements properties
                   (st\<lparr>errors := errors st @ [DV6Line_error l Dir_format]\<rparr>))"
proof -
  have dot: "list_all cls_dot v"
    using assms(2,3) by (auto simp: list_all_iff cls_dot_def)
  have "re_exec property_re (CHR ''d'' # ''ir'' @ '':'' @ v) =
          Some (no_captures(1 := Some (CHR ''d'' # ''ir''), 2 := Some v,
                            0 := Some (CHR ''d'' # ''ir'' @ '':'' @ v)))"
    by (rule property_re_exec) (simp_all add: cls_alpha_def cls_w_def in_range_def dot)
  then have ex: "re_exec property_re (content l) =
          Some (no_captures(1 := Some ''dir'', 2 := Some v, 0 := Some (''dir:'' @ v)))"
    by (simp add: assms(1))
  show ?thesis
    by (auto simp: parse_properties_step_def ex grp_def startsWith_slash endsWith_slash
        text_element_def new_DV6Element_def errors_push_def)
qed

text \<open>C7 on the three values that the claim names: \<open>/foo/bar\<close> is accepted, \<open>foo/bar\<close> and
  \<open>/foo/bar/\<close> give an error and no node.\<close>

theorem C7_dir_witness:
  "parse_properties_loop [Line (new_DV6Line 1 None 1 ''dir:/foo/bar'')] [] new_DV6Parser =
     (Inr [Elem (DV6Element ''dir'' [] [Text ''/foo/bar''])], new_DV6Parser)
   \<and> parse_properties_loop [Line (new_DV6Line 1 None 1 ''dir:foo/bar'')] [] new_DV6Parser =
     (Inr [], \<lparr>errors = [(Single 1, Dir_format)], warnings = []\<rparr>)
   \<and> parse_properties_loop [Line (new_DV6Line 1 None 1 ''dir:/foo/bar/'')] [] new_DV6Parser =
     (Inr [], \<lparr>errors = [(Single 1, Dir_format)], warnings = []\<rparr>)"
  using C7_dir [of "new_DV6Line 1 None 1 ''dir:/foo/bar''" "''/foo/bar''" "[]" "[]" new_DV6Parser]
    C7_dir [of "new_DV6Line 1 None 1 ''dir:foo/bar''" "''foo/bar''" "[]" "[]" new_DV6Parser]
    C7_dir [of "new_DV6Line 1 None 1 ''dir:/foo/bar/''" "''/foo/bar/''" "[]" "[]" new_DV6Parser]
  by (simp add: new_DV6Line_def new_DV6Parser_def DV6Line_error_def)

text \<open>
  C8. For the children of every entry, the index where the content region starts is at
  most the index where the extended region starts, which is at most the number of
  children; the three slices that \<open>parse_top_children\<close> takes at these indices follow one
  another and make up the children. If every child looks like a property, the property
  region is the whole list; if no child begins with two slashes, the extended region is
  empty.
\<close>

theorem C8_region_boundaries:
  "contents_begin_index children \<le> extended_begin_index children
   \<and> extended_begin_index children \<le> length children
   \<and> slice 0 (contents_begin_index children) children
       @ slice (contents_begin_index children) (extended_begin_index children) children
       @ slice (extended_begin_index children) (length children) children = children
   \<and> ((\<forall>element\<in>set children. is_property (line_of element)) \<longrightarrow>
        slice 0 (contents_begin_index children) children = children)
   \<and> ((\<forall>element\<in>set children. take 2 (content (line_of element)) \<noteq> ''//'') \<longrightarrow>
        slice (extended_begin_index children) (length children) children = [])"
proof (intro conjI impI)
  show le: "contents_begin_index children \<le> extended_begin_index children"
    by (rule contents_begin_le_extended_begin)
  show le2: "extended_begin_index children \<le> length children"
    by (rule extended_begin_le_length)
  show "slice 0 (contents_begin_index children) children
       @ slice (contents_begin_index children) (extended_begin_index children) children
       @ slice (extended_begin_index children) (length children) children = children"
    by (rule slices_cover [OF le le2])
next
  assume "\<forall>element\<in>set children. is_property (line_of element)"
  then have "findIndex (\<lambda>element. \<not> is_property (line_of element)) children = None"
    by (simp add: findIndex_None)
  then show "slice 0 (contents_begin_index children) children = children"
    by (simp add: contents_begin_index_def slice_def)
next
  assume "\<forall>element\<in>set children. take 2 (content (line_of element)) \<noteq> ''//''"
  then have "findIndex (\<lambda>element. is_extended (line_of element)) children = None"
    by (simp add: findIndex_None is_extended_iff)
  then show "slice (extended_begin_index children) (length children) children = []"
    by (simp add: extended_begin_index_def slice_def)
qed

text \<open>C8 on an entry with one child in each region, and on an entry whose only child is a
  property.\<close>

theorem C8_region_boundaries_witness:
  "contents_begin_index
       [Line (new_DV6Line 1 None 1 ''yomi:a''), Line (new_DV6Line 2 None 1 ''* b''),
        Line (new_DV6Line 3 None 1 ''//c'')] = 1
   \<and> extended_begin_index
       [Line (new_DV6Line 1 None 1 ''yomi:a''), Line (new_DV6Line 2 None 1 ''* b''),
        Line (new_DV6Line 3 None 1 ''//c'')] = 2
   \<and> slice 0 (contents_begin_index [Line (new_DV6Line 1 None 1 ''yomi:a'')])
        [Line (new_DV6Line 1 None 1 ''yomi:a'')] = [Line (new_DV6Line 1 None 1 ''yomi:a'')]
   \<and> slice (extended_begin_index [Line (new_DV6Line 1 None 1 ''yomi:a'')])
        (length [Line (new_DV6Line 1 None 1 ''yomi:a'')])
        [Line (new_DV6Line 1 None 1 ''yomi:a'')] = []"
proof -
  let ?one = "[Line (new_DV6Line 1 None 1 ''yomi:a'')]"
  have p: "\<forall>element\<in>set ?one. is_property (line_of element)"
    by code_simp
  have e: "\<forall>element\<in>set ?one. take 2 (content (line_of element)) \<noteq> ''//''"
    by (simp add: new_DV6Line_def)
  have "contents_begin_index
       [Line (new_DV6Line 1 None 1 ''yomi:a''), Line (new_DV6Line 2 None 1 ''* b''),
        Line (new_DV6Line 3 None 1 ''//c'')] = 1"
    by code_simp
  moreover have "extended_begin_index
       [Line (new_DV6Line 1 None 1 ''yomi:a''), Line (new_DV6Line 2 None 1 ''* b''),
        Line (new_DV6Line 3 None 1 ''//c'')] = 2"
    by code_simp
  ultimately show ?thesis
    using C8_region_boundaries [of ?one] p e by blast
qed

text \<open>
  C9. Every \<open>word\<close> node that the parser returns has three children: one \<open>name\<close> node that
  holds the title of the entry, which is the text after the \<open>#\<close> of a head line of the top
  level, one \<open>properties\<close> node and one \<open>contents\<close> node.
\<close>

theorem C9_word_children:
  assumes "parse dv6 = (Inr ws, st)" and "w \<in> set ws"
  shows "\<exists>title properties.
           w = DV6Element ''word'' []
                 [Elem (DV6Element ''name'' [] [Text title]),
                  Elem (DV6Element ''properties'' [] properties),
                  Elem (DV6Element ''contents'' [] [])]
         \<and> (\<exists>lines tree l ch.
               dv6_to_lines dv6 = Inr lines
             \<and> flat_to_structured_lines lines = Inr (Some tree)
             \<and> HeadLine l ch \<in> set tree
             \<and> content l = CHR ''#'' # title)"
proof -
  from assms(1) obtain lines tree vs where
    lines: "dv6_to_lines dv6 = Inr lines"
    and tree: "flat_to_structured_lines lines = Inr (Some tree)"
    and vs: "parse_toplevel_map tree new_DV6Parser = (Inr vs, st)"
    and ws: "ws = List.map_filter (\<lambda>w. w) vs"
    by (auto simp: parse_def parse_toplevel_def split: sum.splits option.splits prod.splits)
  from assms(2) ws have "Some w \<in> set vs"
    by (auto simp: List.map_filter_def)
  from parse_toplevel_map_shape [OF vs this] obtain l ch sta stb where
    h: "HeadLine l ch \<in> set tree" and w: "parse_word l ch sta = (Inr w, stb)"
    by blast
  from parse_word_shape [OF w] lines tree h show ?thesis by blast
qed

text \<open>C9 on an entry with a property line and a content line.\<close>

theorem C9_word_children_witness:
  "parse (''#a'' @ [LF, TAB] @ ''yomi:b'' @ [LF, TAB] @ ''* c'') =
     (Inr [DV6Element ''word'' []
             [Elem (DV6Element ''name'' [] [Text ''a'']),
              Elem (DV6Element ''properties'' [] [Elem (DV6Element ''yomi'' [] [Text ''b''])]),
              Elem (DV6Element ''contents'' [] [])]], new_DV6Parser)
   \<and> (\<exists>title properties.
         DV6Element ''word'' []
             [Elem (DV6Element ''name'' [] [Text ''a'']),
              Elem (DV6Element ''properties'' [] [Elem (DV6Element ''yomi'' [] [Text ''b''])]),
              Elem (DV6Element ''contents'' [] [])] =
         DV6Element ''word'' []
             [Elem (DV6Element ''name'' [] [Text title]),
              Elem (DV6Element ''properties'' [] properties),
              Elem (DV6Element ''contents'' [] [])])"
proof -
  have p: "parse (''#a'' @ [LF, TAB] @ ''yomi:b'' @ [LF, TAB] @ ''* c'') =
     (Inr [DV6Element ''word'' []
             [Elem (DV6Element ''name'' [] [Text ''a'']),
              Elem (DV6Element ''properties'' [] [Elem (DV6Element ''yomi'' [] [Text ''b''])]),
              Elem (DV6Element ''contents'' [] [])]], new_DV6Parser)"
    by code_simp
  from C9_word_children [OF p] p show ?thesis by auto
qed

text \<open>
  C10. There is an input on which the parse ends abnormally, with no word and no
  diagnostic: a head line whose text is \<open>#\<close> alone. The title pattern does not match it, and
  reading index 1 of the \<open>null\<close> result is a \<open>TypeError\<close>, whatever the children of the head
  line and the sinks are; so it is for the text of the line \<open>#\<close> and one indented line.
\<close>

theorem C10_empty_title_aborts:
  "re_exec title_re ''#'' = None
   \<and> parse_word (l\<lparr>content := ''#''\<rparr>) children st =
       (Inl (TypeError ''structure.content.match''), st)
   \<and> parse (''#'' @ [LF, TAB] @ ''yomi:a'') =
       (Inl (TypeError ''structure.content.match''), new_DV6Parser)"
proof -
  have t: "re_exec title_re ''#'' = None" by code_simp
  have "parse (''#'' @ [LF, TAB] @ ''yomi:a'') =
       (Inl (TypeError ''structure.content.match''), new_DV6Parser)" by code_simp
  with t show ?thesis by (simp add: parse_word_def)
qed

end
